theory Spec2Isabelle
  imports Complex_Main
begin

section \<open>Strings\<close>

text \<open>
  Class names, rule texts and attribute values are strings. The helpers below are the
  string operations of the platform that the program calls: \<open>startsWith\<close>, the
  substring test behind the attribute selector \<open>[class*="..."]\<close>, \<open>replace\<close> with a
  string pattern (first occurrence only) and \<open>join\<close>.
\<close>

fun startsWith :: "string \<Rightarrow> string \<Rightarrow> bool" where
  "startsWith [] s = True"
| "startsWith (p # ps) [] = False"
| "startsWith (p # ps) (c # cs) = (p = c \<and> startsWith ps cs)"

fun contains :: "string \<Rightarrow> string \<Rightarrow> bool" where
  "contains sub [] = (sub = [])"
| "contains sub (c # cs) = (startsWith sub (c # cs) \<or> contains sub cs)"

fun replace :: "string \<Rightarrow> string \<Rightarrow> string \<Rightarrow> string" where
  "replace pat rep [] = (if pat = [] then rep else [])"
| "replace pat rep (c # cs) =
     (if startsWith pat (c # cs) then rep @ drop (length pat) (c # cs)
      else c # replace pat rep cs)"

fun join :: "string \<Rightarrow> string list \<Rightarrow> string" where
  "join sep [] = []"
| "join sep [x] = x"
| "join sep (x # y # ys) = x @ sep @ join sep (y # ys)"

subsection \<open>Decimal digits\<close>

definition is_digit :: "char \<Rightarrow> bool" where
  "is_digit c = (c \<in> set ''0123456789'')"

definition digit_val :: "char \<Rightarrow> nat" where
  "digit_val c = of_char c - 48"

definition digit_char :: "nat \<Rightarrow> char" where
  "digit_char n = ''0123456789'' ! n"

text \<open>The integer a string of decimal digits denotes.\<close>

definition dec_val :: "string \<Rightarrow> nat" where
  "dec_val ds = foldl (\<lambda>acc c. 10 * acc + digit_val c) 0 ds"

text \<open>The decimal digits of a natural number, without leading zeros.\<close>

fun digits_of :: "nat \<Rightarrow> string" where
  "digits_of n =
     (if n < 10 then [digit_char n] else digits_of (n div 10) @ [digit_char (n mod 10)])"

declare digits_of.simps [simp del]

section \<open>Numbers\<close>

text \<open>
  A JavaScript Number is an IEEE double. The Numbers this program computes are the
  results of \<open>parseInt\<close> on a string of digits, their products with \<open>0.25\<close>, \<open>1\<close> and
  \<open>-1\<close>, and \<open>k / 10\<close> for an integer \<open>k\<close> from 1 to 10. \<open>Num r\<close> is the double nearest
  to the real \<open>r\<close>. \<open>parseInt\<close> rounds explicitly (\<open>to_double\<close>), so its result is
  \<open>Num\<close> of a real that is a double; multiplying a double by \<open>0.25\<close>, \<open>1\<close> or \<open>-1\<close> is
  exact (no overflow, and no underflow from an integer), so spacing values are \<open>Num\<close> of
  the exact quarter. Only \<open>k / 10\<close> is not a double itself: \<open>Num (k / 10)\<close> is the
  double nearest to the tenth. Negative zero is not told apart from zero: both print as
  \<open>0\<close> in \<open>toString\<close> and in \<open>toFixed\<close>, and the program does nothing else with it.
  No operation of the program yields NaN.
\<close>

datatype number = Num real | PosInf | NegInf

fun bit_length :: "nat \<Rightarrow> nat" where
  "bit_length n = (if n = 0 then 0 else Suc (bit_length (n div 2)))"

declare bit_length.simps [simp del]

text \<open>
  The double nearest to a natural number: 53 significant bits, ties to the even
  significand; from \<open>2 ^ 1024\<close> on (after rounding) the result is \<open>Infinity\<close>.
\<close>

definition to_double :: "nat \<Rightarrow> number" where
  "to_double n =
     (let e = bit_length n - 53;
          q = n div 2 ^ e;
          r = n mod 2 ^ e;
          q' = (if 2 ^ e < 2 * r \<or> (2 * r = 2 ^ e \<and> odd q) then q + 1 else q)
      in if 1024 < bit_length (q' * 2 ^ e) then PosInf else Num (of_nat (q' * 2 ^ e)))"

text \<open>
  \<open>parseInt(digits, 10)\<close> on a capture of \<open>\d+\<close>: the Number for the integer the
  digits denote. (An implementation may replace digits after the 20th by zeros before
  rounding; this model rounds the exact integer.)
\<close>

definition parseInt :: "string \<Rightarrow> number" where
  "parseInt ds = to_double (dec_val ds)"

text \<open>\<open>x * c\<close> for the constants \<open>c\<close> the program multiplies by (none of them zero).\<close>

definition multiply :: "number \<Rightarrow> real \<Rightarrow> number" where
  "multiply x c =
     (case x of
        Num r \<Rightarrow> Num (r * c)
      | PosInf \<Rightarrow> (if c < 0 then NegInf else PosInf)
      | NegInf \<Rightarrow> (if c < 0 then PosInf else NegInf))"

text \<open>\<open>x / c\<close> for a positive constant \<open>c\<close>.\<close>

definition divide :: "number \<Rightarrow> real \<Rightarrow> number" where
  "divide x c = (case x of Num r \<Rightarrow> Num (r / c) | PosInf \<Rightarrow> PosInf | NegInf \<Rightarrow> NegInf)"

text \<open>\<open>x >= c\<close> and \<open>x <= c\<close>.\<close>

definition ge :: "number \<Rightarrow> real \<Rightarrow> bool" where
  "ge x c = (case x of Num r \<Rightarrow> c \<le> r | PosInf \<Rightarrow> True | NegInf \<Rightarrow> False)"

definition le :: "number \<Rightarrow> real \<Rightarrow> bool" where
  "le x c = (case x of Num r \<Rightarrow> r \<le> c | PosInf \<Rightarrow> False | NegInf \<Rightarrow> True)"

subsection \<open>Number to string\<close>

text \<open>
  \<open>Number::toString\<close> prints the shortest decimal \<open>s * 10 ^ (n - k)\<close>, with \<open>k\<close> digits
  \<open>s\<close>, that reads back as the same double. For a positive integer \<open>x\<close> of \<open>d\<close> decimal
  digits, \<open>shortest j d x\<close> tries the lengths \<open>k = d - j\<close> upwards: the candidates of
  length \<open>k\<close> are the two multiples of \<open>10 ^ j\<close> around \<open>x\<close>, and of those that read back
  as \<open>x\<close> the one nearer to \<open>x\<close> is taken (the lower one when both are as near). The
  result is \<open>(s, n)\<close>.
\<close>

fun shortest :: "nat \<Rightarrow> nat \<Rightarrow> nat \<Rightarrow> nat \<times> nat" where
  "shortest j d x =
     (if j = 0 then (x, d)
      else
        (let p = 10 ^ j;
             lo = x div p;
             hi = lo + 1;
             ok_lo = (0 < lo \<and> to_double (lo * p) = Num (of_nat x));
             ok_hi = (to_double (hi * p) = Num (of_nat x))
         in if ok_lo \<and> (\<not> ok_hi \<or> x - lo * p \<le> hi * p - x) then (lo, d)
            else if ok_hi then (if hi = 10 ^ (d - j) then (1, d + 1) else (hi, d))
            else shortest (j - 1) d x))"

declare shortest.simps [simp del]

definition integer_to_string :: "nat \<Rightarrow> string" where
  "integer_to_string x =
     (if x = 0 then ''0''
      else
        (let (s, n) = shortest (length (digits_of x) - 1) (length (digits_of x)) x;
             m = digits_of s;
             k = length m
         in if n \<le> 21 then m @ replicate (n - k) CHR ''0''
            else if k = 1 then m @ ''e+'' @ digits_of (n - 1)
            else take 1 m @ ''.'' @ drop 1 m @ ''e+'' @ digits_of (n - 1)))"

text \<open>
  The digits after the decimal point of a real in \<open>[0, 1)\<close>, at most \<open>fuel\<close> of them.
  The program prints a Number that is not an integer only when it is a tenth, whose
  \<open>toString\<close> is its one decimal digit.
\<close>

fun fraction_digits :: "nat \<Rightarrow> real \<Rightarrow> string" where
  "fraction_digits fuel f =
     (if fuel = 0 \<or> f = 0 then []
      else digit_char (nat \<lfloor>f * 10\<rfloor>)
             # fraction_digits (fuel - 1) (f * 10 - of_int \<lfloor>f * 10\<rfloor>))"

declare fraction_digits.simps [simp del]

definition positive_to_string :: "real \<Rightarrow> string" where
  "positive_to_string a =
     (if a = of_int \<lfloor>a\<rfloor> then integer_to_string (nat \<lfloor>a\<rfloor>)
      else digits_of (nat \<lfloor>a\<rfloor>) @ ''.'' @ fraction_digits 17 (a - of_int \<lfloor>a\<rfloor>))"

text \<open>\<open>String(x)\<close>, as a template literal applies it to a Number.\<close>

definition number_to_string :: "number \<Rightarrow> string" where
  "number_to_string x =
     (case x of
        PosInf \<Rightarrow> ''Infinity''
      | NegInf \<Rightarrow> ''-Infinity''
      | Num r \<Rightarrow> (if r < 0 then ''-'' @ positive_to_string (- r) else positive_to_string r))"

text \<open>
  The digits of \<open>n\<close> with a decimal point before the last two, padded with zeros to
  three digits.
\<close>

definition two_places :: "nat \<Rightarrow> string" where
  "two_places n =
     (let m = digits_of n;
          m' = (if length m \<le> 2 then replicate (3 - length m) CHR ''0'' @ m else m)
      in take (length m' - 2) m' @ ''.'' @ drop (length m' - 2) m')"

text \<open>
  \<open>x.toFixed(2)\<close>: below \<open>10 ^ 21\<close> in magnitude, the integer \<open>n\<close> nearest to a hundred
  times the magnitude (the larger one of two) printed by \<open>two_places\<close>, after the
  sign; from \<open>10 ^ 21\<close> on, \<open>toString\<close>.
\<close>

definition toFixed2 :: "number \<Rightarrow> string" where
  "toFixed2 x =
     (case x of
        PosInf \<Rightarrow> ''Infinity''
      | NegInf \<Rightarrow> ''-Infinity''
      | Num r \<Rightarrow>
          (let s = (if r < 0 then ''-'' else []);
               a = \<bar>r\<bar>
           in if 10 ^ 21 \<le> a then s @ number_to_string (Num a)
              else s @ two_places (nat \<lfloor>a * 100 + 1 / 2\<rfloor>)))"

section \<open>The document and the browser state the managers act on\<close>

text \<open>
  The document is read, never written: it is the list of its elements in tree order,
  each element given by the value of its \<open>class\<close> attribute (the empty string for an
  element that has none: no selector of the program matches it).

  A \<open>CSSStyleSheet\<close> object is shared between the manager that keeps it in
  \<open>this.styleSheet\<close> and \<open>document.adoptedStyleSheets\<close>, so sheets live in a store: a
  sheet's identity is its index in \<open>sheets\<close>, its value is the list of its rules, each
  rule as the text it was written as. \<open>document.adoptedStyleSheets\<close> is a list of
  such identities. \<open>observers\<close> lists the mutation observers registered on the body.
\<close>

type_synonym element = string

type_synonym document = "element list"

definition is_whitespace :: "char \<Rightarrow> bool" where
  "is_whitespace c = (c \<in> set [CHR 0x09, CHR 0x0A, CHR 0x0C, CHR 0x0D, CHR 0x20])"

text \<open>The tokens of a class attribute: split at ASCII whitespace.\<close>

fun tokens :: "string \<Rightarrow> string \<Rightarrow> string list" where
  "tokens cur [] = (if cur = [] then [] else [cur])"
| "tokens cur (c # cs) =
     (if is_whitespace c then (if cur = [] then tokens [] cs else cur # tokens [] cs)
      else tokens (cur @ [c]) cs)"

text \<open>\<open>element.classList\<close>: the tokens, each once, in order of first occurrence.\<close>

definition classList :: "element \<Rightarrow> string list" where
  "classList element = rev (remdups (rev (tokens [] element)))"

text \<open>\<open>document.querySelectorAll('[class*="sub"]')\<close>.\<close>

definition querySelectorAll :: "string \<Rightarrow> document \<Rightarrow> element list" where
  "querySelectorAll sub doc = filter (contains sub) doc"

datatype observer =
    SpaceObserver | ZIndexObserver | OpacityObserver | BorderRadiusObserver | FontSizeObserver

record browser =
  sheets :: "string list list"
  adoptedStyleSheets :: "nat list"
  observers :: "observer list"

text \<open>\<open>new CSSStyleSheet()\<close>: a fresh, empty sheet; its identity is returned.\<close>

definition new_CSSStyleSheet :: "browser \<Rightarrow> nat \<times> browser" where
  "new_CSSStyleSheet b = (length (sheets b), b\<lparr>sheets := sheets b @ [[]]\<rparr>)"

text \<open>\<open>sheet.replaceSync(text)\<close>: the rules of the sheet become the rules of the text.\<close>

definition replaceSync :: "nat \<Rightarrow> string list \<Rightarrow> browser \<Rightarrow> browser" where
  "replaceSync sheet rules b = b\<lparr>sheets := (sheets b)[sheet := rules]\<rparr>"

text \<open>\<open>sheet.insertRule(rule, sheet.cssRules.length)\<close>: the rule is appended.\<close>

definition insertRule :: "nat \<Rightarrow> string \<Rightarrow> browser \<Rightarrow> browser" where
  "insertRule sheet rule b = b\<lparr>sheets := (sheets b)[sheet := sheets b ! sheet @ [rule]]\<rparr>"

text \<open>\<open>document.adoptedStyleSheets = [...document.adoptedStyleSheets, sheet]\<close>.\<close>

definition adopt :: "nat \<Rightarrow> browser \<Rightarrow> browser" where
  "adopt sheet b = b\<lparr>adoptedStyleSheets := adoptedStyleSheets b @ [sheet]\<rparr>"

definition observe :: "observer \<Rightarrow> browser \<Rightarrow> browser" where
  "observe ob b = b\<lparr>observers := observers b @ [ob]\<rparr>"

text \<open>The rules of every adopted sheet, in adoption order: the stylesheet set.\<close>

definition adopted_rules :: "browser \<Rightarrow> string list" where
  "adopted_rules b = concat (map (\<lambda>i. sheets b ! i) (adoptedStyleSheets b))"

section \<open>Regular expressions\<close>

text \<open>
  \<open>input.match(regex)\<close> with a regex that has no flags returns the leftmost match, or
  null. \<open>leftmost m s\<close> tries the matcher \<open>m\<close> at every position of \<open>s\<close> in turn. Each
  matcher below is one regex of the program tried at the start of a string; none of
  them needs backtracking: \<open>\d+\<close> takes every digit there is and what follows it is
  optional, and when \<open>[trblxy]?\<close> has taken a letter, giving it back leaves that letter
  where \<open>-\<close> is required.
\<close>

fun leftmost :: "(string \<Rightarrow> 'a option) \<Rightarrow> string \<Rightarrow> 'a option" where
  "leftmost m [] = m []"
| "leftmost m (c # cs) = (case m (c # cs) of Some r \<Rightarrow> Some r | None \<Rightarrow> leftmost m cs)"

text \<open>A literal, then \<open>(\d+)\<close>: the digits and what follows them.\<close>

definition literal_digits :: "string \<Rightarrow> string \<Rightarrow> (string \<times> string) option" where
  "literal_digits lit s =
     (if startsWith lit s \<and> takeWhile is_digit (drop (length lit) s) \<noteq> []
      then Some (takeWhile is_digit (drop (length lit) s),
                 dropWhile is_digit (drop (length lit) s))
      else None)"

text \<open>\<open>(n)?\<close> at the start of a string: whether the group took part in the match.\<close>

definition optional_n :: "string \<Rightarrow> bool" where
  "optional_n s = (case s of [] \<Rightarrow> False | c # _ \<Rightarrow> c = CHR ''n'')"

text \<open>\<open>/([mp][trblxy]?)-(\d+)(n)?/\<close>: styleType, number, and whether \<open>(n)\<close> matched.\<close>

definition space_regex :: "string \<Rightarrow> (string \<times> string \<times> bool) option" where
  "space_regex s =
     (case s of
        [] \<Rightarrow> None
      | c # t \<Rightarrow>
          if c \<in> set ''mp'' then
            (let styleType = (case t of
                                [] \<Rightarrow> [c]
                              | c2 # _ \<Rightarrow> if c2 \<in> set ''trblxy'' then [c, c2] else [c])
             in case literal_digits ''-'' (drop (length styleType) s) of
                  None \<Rightarrow> None
                | Some (number, rest) \<Rightarrow> Some (styleType, number, optional_n rest))
          else None)"

text \<open>\<open>/z-(\d+)(n)?/\<close>: number, and whether \<open>(n)\<close> matched.\<close>

definition z_regex :: "string \<Rightarrow> (string \<times> bool) option" where
  "z_regex s =
     (case literal_digits ''z-'' s of
        None \<Rightarrow> None
      | Some (number, rest) \<Rightarrow> Some (number, optional_n rest))"

text \<open>\<open>/opacity-(\d+)/\<close>, \<open>/rounded-(\d+)/\<close> and \<open>/fs-(\d+)/\<close>: the digits.\<close>

definition digits_regex :: "string \<Rightarrow> string \<Rightarrow> string option" where
  "digits_regex lit s = map_option fst (literal_digits lit s)"

section \<open>ScreenSize\<close>

text \<open>
  \<open>timeout\<close> is the variable of the closure \<open>debounce\<close> returns: here the time at
  which the pending timer is due, or \<open>None\<close> when no timer is pending.
\<close>

record screen_size =
  cssVariables :: "(string \<times> string) list"
  timeout :: "nat option"

definition setCssVariables :: "(string \<times> string) list \<Rightarrow> browser \<Rightarrow> browser" where
  "setCssVariables variables b =
     (let (styleSheet, b1) = new_CSSStyleSheet b;
          b2 = replaceSync styleSheet
                 ['':root { '' @ join '' '' (map (\<lambda>(key, val). key @ '': '' @ val @ '';'') variables)
                    @ '' }''] b1
      in b2\<lparr>adoptedStyleSheets := [styleSheet]\<rparr>)"

text \<open>\<open>window.innerWidth\<close> is an integer number of CSS pixels.\<close>

definition getDeviceTypeAndContainer :: "int \<Rightarrow> string \<times> string" where
  "getDeviceTypeAndContainer width =
     (if width < 576 then (''xs'', ''100%'')
      else if width < 768 then (''sm'', ''540px'')
      else if width < 992 then (''md'', ''720px'')
      else if width < 1200 then (''lg'', ''960px'')
      else if width < 1400 then (''xl'', ''1140px'')
      else (''xxl'', ''1320px''))"

definition updateDeviceType :: "int \<Rightarrow> browser \<Rightarrow> browser" where
  "updateDeviceType innerWidth b =
     (let (deviceType, container) = getDeviceTypeAndContainer innerWidth
      in setCssVariables [(''--device-type'', deviceType), (''--container'', container)] b)"

text \<open>
  The function \<open>debounce(func, delay)\<close> returns, called at time \<open>now\<close>:
  \<open>clearTimeout\<close> drops the pending timer and \<open>setTimeout\<close> starts one that is due
  \<open>delay\<close> milliseconds later.
\<close>

definition debounced :: "nat \<Rightarrow> nat \<Rightarrow> screen_size \<Rightarrow> screen_size" where
  "debounced delay now s = s\<lparr>timeout := Some (now + delay)\<rparr>"

text \<open>The constructor; the resize listener it adds is \<open>debounced 300\<close>.\<close>

definition ScreenSize_new :: "int \<Rightarrow> browser \<Rightarrow> screen_size \<times> browser" where
  "ScreenSize_new innerWidth b =
     (\<lparr>cssVariables = [(''--device-type'', []), (''--container'', [])], timeout = None\<rparr>,
      updateDeviceType innerWidth b)"

section \<open>SpaceManager\<close>

record space_manager =
  processedClassNames :: "string set"

definition cssPropertyMap :: "(string \<times> string) list" where
  "cssPropertyMap =
     [(''m'', ''margin''),
      (''mt'', ''margin-top''),
      (''mb'', ''margin-bottom''),
      (''ml'', ''margin-left''),
      (''mr'', ''margin-right''),
      (''mx'', ''margin-horizontal''),
      (''my'', ''margin-vertical''),
      (''p'', ''padding''),
      (''pt'', ''padding-top''),
      (''pb'', ''padding-bottom''),
      (''pl'', ''padding-left''),
      (''pr'', ''padding-right''),
      (''px'', ''padding-horizontal''),
      (''py'', ''padding-vertical'')]"

definition calculateSpaceValue :: "string \<Rightarrow> (string \<times> string) option" where
  "calculateSpaceValue input =
     (case leftmost space_regex input of
        None \<Rightarrow> None
      | Some (styleType, number, negativeFlag) \<Rightarrow>
          (let multiplier = (if negativeFlag then - 1 else 1);
               styleValue = toFixed2 (multiply (multiply (parseInt number) (1 / 4)) multiplier)
           in Some (styleType, styleValue)))"

text \<open>
  The body of the inner \<open>forEach\<close> of \<open>applyStyles\<close>, for one class name: the state
  it works on is the processed set and the text \<open>spaceStyles\<close>, kept as the list of
  the rules written into it (one per line).
\<close>

definition space_rule :: "string \<Rightarrow> string \<Rightarrow> string \<Rightarrow> string" where
  "space_rule className cssProperty styleValue =
     (if cssProperty = ''margin-horizontal'' \<or> cssProperty = ''padding-horizontal'' then
        ''.'' @ className @ '' { '' @ replace ''-horizontal'' ''-left'' cssProperty @ '': ''
          @ styleValue @ ''rem; '' @ replace ''-horizontal'' ''-right'' cssProperty @ '': ''
          @ styleValue @ ''rem; }''
      else if cssProperty = ''margin-vertical'' \<or> cssProperty = ''padding-vertical'' then
        ''.'' @ className @ '' { '' @ replace ''-vertical'' ''-top'' cssProperty @ '': ''
          @ styleValue @ ''rem; '' @ replace ''-vertical'' ''-bottom'' cssProperty @ '': ''
          @ styleValue @ ''rem; }''
      else ''.'' @ className @ '' { '' @ cssProperty @ '': '' @ styleValue @ ''rem; }'')"

definition space_class :: "string set \<times> string list \<Rightarrow> string \<Rightarrow> string set \<times> string list" where
  "space_class acc className =
     (let (processed, spaceStyles) = acc
      in if className \<in> processed then acc
         else
           (case calculateSpaceValue className of
              None \<Rightarrow> acc
            | Some (styleType, styleValue) \<Rightarrow>
                (case map_of cssPropertyMap styleType of
                   None \<Rightarrow> acc
                 | Some cssProperty \<Rightarrow>
                     (insert className processed,
                      spaceStyles @ [space_rule className cssProperty styleValue]))))"

definition applyStyles :: "document \<Rightarrow> space_manager \<times> browser \<Rightarrow> space_manager \<times> browser" where
  "applyStyles doc st =
     (let (this, b) = st;
          elementsWithClasses = querySelectorAll ''-'' doc;
          (processed, spaceStyles) =
            foldl (\<lambda>acc element. foldl space_class acc (classList element))
              (processedClassNames this, []) elementsWithClasses;
          this' = this\<lparr>processedClassNames := processed\<rparr>
      in if spaceStyles \<noteq> [] then
           (let (styleSheet, b1) = new_CSSStyleSheet b
            in (this', adopt styleSheet (replaceSync styleSheet spaceStyles b1)))
         else (this', b))"

definition SpaceManager_observeDomChanges :: "browser \<Rightarrow> browser" where
  "SpaceManager_observeDomChanges b = observe SpaceObserver b"

definition SpaceManager_new :: "browser \<Rightarrow> space_manager \<times> browser" where
  "SpaceManager_new b = (\<lparr>processedClassNames = {}\<rparr>, SpaceManager_observeDomChanges b)"

section \<open>ZIndexManager, OpacityManager, BorderRadiusManager, FontSizeManager\<close>

text \<open>The four classes have the same two fields.\<close>

record manager =
  processedClasses :: "string set"
  styleSheet :: nat

subsection \<open>ZIndexManager\<close>

definition calculateZIndex :: "string \<Rightarrow> number option" where
  "calculateZIndex className =
     (case leftmost z_regex className of
        Some (number, isNegative) \<Rightarrow>
          (let multiplier = (if isNegative then - 1 else 1)
           in Some (multiply (parseInt number) multiplier))
      | None \<Rightarrow> None)"

definition zindex_class :: "string set \<times> string list \<Rightarrow> string \<Rightarrow> string set \<times> string list" where
  "zindex_class acc className =
     (let (processed, styles) = acc
      in if className \<notin> processed then
           (case calculateZIndex className of
              Some zIndex \<Rightarrow>
                (insert className processed,
                 styles @ [''.'' @ className @ '' { z-index: '' @ number_to_string zIndex @ ''; }''])
            | None \<Rightarrow> acc)
         else acc)"

definition applyZIndexStyles :: "document \<Rightarrow> manager \<times> browser \<Rightarrow> manager \<times> browser" where
  "applyZIndexStyles doc st =
     (let (this, b) = st;
          elements = querySelectorAll ''z-'' doc;
          (processed, styles) =
            foldl (\<lambda>acc element. foldl zindex_class acc (classList element))
              (processedClasses this, []) elements;
          this' = this\<lparr>processedClasses := processed\<rparr>
      in if styles \<noteq> [] then (this', replaceSync (styleSheet this) styles b) else (this', b))"

definition ZIndexManager_initiateDomObserver :: "browser \<Rightarrow> browser" where
  "ZIndexManager_initiateDomObserver b = observe ZIndexObserver b"

definition ZIndexManager_new :: "document \<Rightarrow> browser \<Rightarrow> manager \<times> browser" where
  "ZIndexManager_new doc b =
     (let (sheet, b1) = new_CSSStyleSheet b;
          this = \<lparr>processedClasses = {}, styleSheet = sheet\<rparr>;
          b2 = adopt sheet b1;
          b3 = ZIndexManager_initiateDomObserver b2
      in applyZIndexStyles doc (this, b3))"

subsection \<open>OpacityManager\<close>

definition calculateOpacity :: "string \<Rightarrow> number option" where
  "calculateOpacity className =
     (case leftmost (digits_regex ''opacity-'') className of
        Some digits \<Rightarrow>
          (let opacityLevel = parseInt digits
           in if ge opacityLevel 1 \<and> le opacityLevel 10 then Some (divide opacityLevel 10)
              else None)
      | None \<Rightarrow> None)"

definition addOpacityStyle :: "manager \<times> browser \<Rightarrow> string \<Rightarrow> manager \<times> browser" where
  "addOpacityStyle st className =
     (let (this, b) = st
      in if className \<notin> processedClasses this \<and> startsWith ''opacity-'' className then
           (case calculateOpacity className of
              Some opacity \<Rightarrow>
                (this\<lparr>processedClasses := insert className (processedClasses this)\<rparr>,
                 insertRule (styleSheet this)
                   (''.'' @ className @ '' { opacity: '' @ number_to_string opacity @ ''; }'') b)
            | None \<Rightarrow> st)
         else st)"

definition applyInitialOpacityStyles :: "document \<Rightarrow> manager \<times> browser \<Rightarrow> manager \<times> browser" where
  "applyInitialOpacityStyles doc st =
     (let elements = querySelectorAll ''opacity-'' doc
      in foldl (\<lambda>acc element. foldl addOpacityStyle acc (classList element)) st elements)"

definition OpacityManager_initiateDomObserver :: "browser \<Rightarrow> browser" where
  "OpacityManager_initiateDomObserver b = observe OpacityObserver b"

definition OpacityManager_new :: "document \<Rightarrow> browser \<Rightarrow> manager \<times> browser" where
  "OpacityManager_new doc b =
     (let (sheet, b1) = new_CSSStyleSheet b;
          this = \<lparr>processedClasses = {}, styleSheet = sheet\<rparr>;
          b2 = adopt sheet b1;
          (this', b3) = applyInitialOpacityStyles doc (this, b2)
      in (this', OpacityManager_initiateDomObserver b3))"

text \<open>
  The observer's callback, for one mutation record whose type is \<open>attributes\<close> and
  whose attribute is \<open>class\<close>: \<open>className\<close> is the new value of the target's
  attribute, split at runs of whitespace (the split keeps an empty first or last piece
  and repeated names).
\<close>

definition is_space :: "char \<Rightarrow> bool" where
  "is_space c = (c \<in> set [CHR 0x09, CHR 0x0A, CHR 0x0B, CHR 0x0C, CHR 0x0D, CHR 0x20])"

fun split_spaces :: "string \<Rightarrow> string \<Rightarrow> string list" where
  "split_spaces cur [] = [cur]"
| "split_spaces cur (c # cs) =
     (if is_space c then
        (case cs of
           [] \<Rightarrow> cur # split_spaces [] cs
         | c' # _ \<Rightarrow> if is_space c' then split_spaces cur cs else cur # split_spaces [] cs)
      else split_spaces (cur @ [c]) cs)"

definition opacity_class_mutation :: "string \<Rightarrow> manager \<times> browser \<Rightarrow> manager \<times> browser" where
  "opacity_class_mutation className st = foldl addOpacityStyle st (split_spaces [] className)"

subsection \<open>BorderRadiusManager\<close>

definition calculateBorderRadius :: "string \<Rightarrow> number option" where
  "calculateBorderRadius className =
     (case leftmost (digits_regex ''rounded-'') className of
        Some radius \<Rightarrow> Some (parseInt radius)
      | None \<Rightarrow> None)"

definition radius_class :: "string set \<times> string list \<Rightarrow> string \<Rightarrow> string set \<times> string list" where
  "radius_class acc className =
     (let (processed, styles) = acc
      in if className \<notin> processed then
           (case calculateBorderRadius className of
              Some borderRadius \<Rightarrow>
                (insert className processed,
                 styles @ [''.'' @ className @ '' { border-radius: ''
                             @ number_to_string borderRadius @ ''px; }''])
            | None \<Rightarrow> acc)
         else acc)"

definition applyBorderRadiusStyles :: "document \<Rightarrow> manager \<times> browser \<Rightarrow> manager \<times> browser" where
  "applyBorderRadiusStyles doc st =
     (let (this, b) = st;
          elements = querySelectorAll ''rounded-'' doc;
          (processed, styles) =
            foldl (\<lambda>acc element. foldl radius_class acc (classList element))
              (processedClasses this, []) elements;
          this' = this\<lparr>processedClasses := processed\<rparr>
      in if styles \<noteq> [] then (this', replaceSync (styleSheet this) styles b) else (this', b))"

definition BorderRadiusManager_initiateDomObserver :: "browser \<Rightarrow> browser" where
  "BorderRadiusManager_initiateDomObserver b = observe BorderRadiusObserver b"

definition BorderRadiusManager_new :: "document \<Rightarrow> browser \<Rightarrow> manager \<times> browser" where
  "BorderRadiusManager_new doc b =
     (let (sheet, b1) = new_CSSStyleSheet b;
          this = \<lparr>processedClasses = {}, styleSheet = sheet\<rparr>;
          b2 = adopt sheet b1;
          b3 = BorderRadiusManager_initiateDomObserver b2
      in applyBorderRadiusStyles doc (this, b3))"

subsection \<open>FontSizeManager\<close>

definition calculateFontSize :: "string \<Rightarrow> number option" where
  "calculateFontSize className =
     (case leftmost (digits_regex ''fs-'') className of
        Some digits \<Rightarrow> Some (parseInt digits)
      | None \<Rightarrow> None)"

definition fontsize_class :: "string set \<times> string list \<Rightarrow> string \<Rightarrow> string set \<times> string list" where
  "fontsize_class acc className =
     (let (processed, styles) = acc
      in if className \<notin> processed then
           (case calculateFontSize className of
              Some fontSize \<Rightarrow>
                (insert className processed,
                 styles @ [''.'' @ className @ '' { font-size: ''
                             @ number_to_string fontSize @ ''px; }''])
            | None \<Rightarrow> acc)
         else acc)"

definition applyFontSizeStyles :: "document \<Rightarrow> manager \<times> browser \<Rightarrow> manager \<times> browser" where
  "applyFontSizeStyles doc st =
     (let (this, b) = st;
          elements = querySelectorAll ''fs-'' doc;
          (processed, styles) =
            foldl (\<lambda>acc element. foldl fontsize_class acc (classList element))
              (processedClasses this, []) elements;
          this' = this\<lparr>processedClasses := processed\<rparr>
      in if 0 < length styles then (this', replaceSync (styleSheet this) styles b)
         else (this', b))"

definition FontSizeManager_initiateDomObserver :: "browser \<Rightarrow> browser" where
  "FontSizeManager_initiateDomObserver b = observe FontSizeObserver b"

definition FontSizeManager_new :: "browser \<Rightarrow> manager \<times> browser" where
  "FontSizeManager_new b =
     (let (sheet, b1) = new_CSSStyleSheet b;
          this = \<lparr>processedClasses = {}, styleSheet = sheet\<rparr>;
          b2 = adopt sheet b1
      in (this, FontSizeManager_initiateDomObserver b2))"

section \<open>CSSManager\<close>

record css_manager =
  screenSize :: screen_size
  spaceManager :: space_manager
  zIndexManager :: manager
  opacityManager :: manager
  borderRadiusManager :: manager
  fontSizeManager :: manager

definition CSSManager_observeDomChanges :: "browser \<Rightarrow> browser" where
  "CSSManager_observeDomChanges b =
     FontSizeManager_initiateDomObserver
       (BorderRadiusManager_initiateDomObserver
         (OpacityManager_initiateDomObserver
           (ZIndexManager_initiateDomObserver
             (SpaceManager_observeDomChanges b))))"

definition CSSManager_new :: "document \<Rightarrow> int \<Rightarrow> browser \<Rightarrow> css_manager \<times> browser" where
  "CSSManager_new doc innerWidth b =
     (let (screen, b1) = ScreenSize_new innerWidth b;
          (space, b2) = SpaceManager_new b1;
          (zIndex, b3) = ZIndexManager_new doc b2;
          (opacity, b4) = OpacityManager_new doc b3;
          (borderRadius, b5) = BorderRadiusManager_new doc b4;
          (fontSize, b6) = FontSizeManager_new b5
      in (\<lparr>screenSize = screen, spaceManager = space, zIndexManager = zIndex,
           opacityManager = opacity, borderRadiusManager = borderRadius,
           fontSizeManager = fontSize\<rparr>,
          CSSManager_observeDomChanges b6))"

text \<open>
  The script: \<open>const cssManager = new CSSManager(); cssManager.observeDomChanges();\<close>,
  run on a document and a viewport width, from a browser state that has no sheet yet.
  No callback runs before the script has ended.
\<close>

definition initial_browser :: browser where
  "initial_browser = \<lparr>sheets = [], adoptedStyleSheets = [], observers = []\<rparr>"

definition script :: "document \<Rightarrow> int \<Rightarrow> css_manager \<times> browser" where
  "script doc innerWidth =
     (let (cssManager, b) = CSSManager_new doc innerWidth initial_browser
      in (cssManager, CSSManager_observeDomChanges b))"

section \<open>Resize events and the debounce timer\<close>

text \<open>
  The event loop, as far as the resize listener goes. A state of the loop is the
  \<open>ScreenSize\<close> object, the browser state, the current \<open>window.innerWidth\<close> and the
  list of the breakpoint recomputations performed so far, each with the time it ran
  at and the width it read. \<open>Resize t w\<close> is a resize event at time \<open>t\<close> (in
  milliseconds) that leaves the viewport \<open>w\<close> wide. A timer runs when it is due: a
  pending timer that is due by the time of an event runs before the event's listener.
\<close>

datatype event = Resize nat int

record loop =
  screen :: screen_size
  page :: browser
  width :: int
  recomputed :: "(nat \<times> int) list"

definition run_timer :: "nat \<Rightarrow> loop \<Rightarrow> loop" where
  "run_timer t s =
     (case timeout (screen s) of
        None \<Rightarrow> s
      | Some due \<Rightarrow>
          if due \<le> t then
            s\<lparr>screen := (screen s)\<lparr>timeout := None\<rparr>,
              page := updateDeviceType (width s) (page s),
              recomputed := recomputed s @ [(due, width s)]\<rparr>
          else s)"

fun run :: "event list \<Rightarrow> loop \<Rightarrow> loop" where
  "run [] s = s"
| "run (Resize t w # es) s =
     run es (let s1 = run_timer t s;
                 s2 = s1\<lparr>width := w\<rparr>
             in s2\<lparr>screen := debounced 300 t (screen s2)\<rparr>)"

text \<open>No further event: the pending timer, if any, runs when it is due.\<close>

definition settle :: "loop \<Rightarrow> loop" where
  "settle s = (case timeout (screen s) of None \<Rightarrow> s | Some due \<Rightarrow> run_timer due s)"

text \<open>
  A burst after time \<open>t\<close>: each event comes less than 300 milliseconds after the one
  before it (the first one after \<open>t\<close>), never earlier than it.
\<close>

fun burst :: "nat \<Rightarrow> event list \<Rightarrow> bool" where
  "burst t [] = True"
| "burst t (Resize t' w # es) = (t \<le> t' \<and> t' < t + 300 \<and> burst t' es)"

fun event_time :: "event \<Rightarrow> nat" where
  "event_time (Resize t w) = t"

fun event_width :: "event \<Rightarrow> int" where
  "event_width (Resize t w) = w"

section \<open>What the specification says\<close>

text \<open>
  The definitions of this section follow the words of the specification, not the code:
  the claims compare the code with them.

  Spacing: the value is the digits times 0.25, negated for a trailing \<open>n\<close>, with two
  decimal places; the properties of a prefix are those of the documented table, \<open>mx\<close>,
  \<open>my\<close>, \<open>px\<close> and \<open>py\<close> standing for two properties each. Z-index, border radius and
  font size: the value is the integer the digits denote, negated for a trailing \<open>n\<close>.
  Opacity: the value is the digits divided by ten.
\<close>

definition spec_quarters :: "bool \<Rightarrow> nat \<Rightarrow> string" where
  "spec_quarters negative n =
     (if negative \<and> n \<noteq> 0 then ''-'' else []) @ digits_of (n div 4) @ ''.''
       @ [''00'', ''25'', ''50'', ''75''] ! (n mod 4)"

definition spec_spacing_properties :: "(string \<times> string list) list" where
  "spec_spacing_properties =
     [(''m'', [''margin'']),
      (''mt'', [''margin-top'']),
      (''mb'', [''margin-bottom'']),
      (''ml'', [''margin-left'']),
      (''mr'', [''margin-right'']),
      (''mx'', [''margin-left'', ''margin-right'']),
      (''my'', [''margin-top'', ''margin-bottom'']),
      (''p'', [''padding'']),
      (''pt'', [''padding-top'']),
      (''pb'', [''padding-bottom'']),
      (''pl'', [''padding-left'']),
      (''pr'', [''padding-right'']),
      (''px'', [''padding-left'', ''padding-right'']),
      (''py'', [''padding-top'', ''padding-bottom''])]"

definition spec_space_rule :: "string \<Rightarrow> string list \<Rightarrow> string \<Rightarrow> string" where
  "spec_space_rule className properties v =
     ''.'' @ className @ '' { '' @ join '' '' (map (\<lambda>p. p @ '': '' @ v @ ''rem;'') properties)
       @ '' }''"

definition spec_integer :: "bool \<Rightarrow> nat \<Rightarrow> string" where
  "spec_integer negative n = (if negative \<and> n \<noteq> 0 then ''-'' else []) @ digits_of n"

definition spec_tenths :: "nat \<Rightarrow> string" where
  "spec_tenths k = (if k = 10 then ''1'' else ''0.'' @ [digit_char k])"

section \<open>Decimal digits and rounding\<close>

lemma digit_char_simps:
  "digit_char 0 = CHR ''0''" "digit_char 1 = CHR ''1''" "digit_char 2 = CHR ''2''"
  "digit_char 3 = CHR ''3''" "digit_char 4 = CHR ''4''" "digit_char 5 = CHR ''5''"
  "digit_char 6 = CHR ''6''" "digit_char 7 = CHR ''7''" "digit_char 8 = CHR ''8''"
  "digit_char 9 = CHR ''9''"
  by (simp_all add: digit_char_def)

lemma digits_of_small: "n < 10 \<Longrightarrow> digits_of n = [digit_char n]"
  by (subst digits_of.simps) simp

lemma digits_of_step:
  assumes "0 < q" "r < 10"
  shows "digits_of (10 * q + r) = digits_of q @ [digit_char r]"
proof -
  have "\<not> 10 * q + r < 10" using assms by simp
  moreover have "(10 * q + r) div 10 = q" using assms by simp
  moreover have "(10 * q + r) mod 10 = r" using assms by simp
  ultimately show ?thesis by (subst digits_of.simps) simp
qed

lemma digits_of_hundreds:
  assumes "0 < q" "r < 100"
  shows "digits_of (100 * q + r) = digits_of q @ [digit_char (r div 10), digit_char (r mod 10)]"
proof -
  have e: "100 * q + r = 10 * (10 * q + r div 10) + r mod 10" by presburger
  have "digits_of (100 * q + r) = digits_of (10 * q + r div 10) @ [digit_char (r mod 10)]"
    unfolding e using assms by (intro digits_of_step) auto
  also have "digits_of (10 * q + r div 10) = digits_of q @ [digit_char (r div 10)]"
    using assms by (intro digits_of_step) auto
  finally show ?thesis by simp
qed

lemma digits_of_times_power:
  "0 < s \<Longrightarrow> digits_of (s * 10 ^ j) = digits_of s @ replicate j CHR ''0''"
proof (induction j)
  case 0
  then show ?case by simp
next
  case (Suc j)
  have "digits_of (s * 10 ^ Suc j) = digits_of (10 * (s * 10 ^ j) + 0)"
    by (simp add: mult.commute mult.left_commute)
  also have "\<dots> = digits_of (s * 10 ^ j) @ [digit_char 0]"
    using Suc.prems by (intro digits_of_step) auto
  also have "\<dots> = digits_of s @ replicate (Suc j) CHR ''0''"
    using Suc by (simp add: digit_char_simps replicate_append_same)
  finally show ?case .
qed

lemma length_digits_of_le: "n < 10 ^ k \<Longrightarrow> 0 < k \<Longrightarrow> length (digits_of n) \<le> k"
proof (induction n arbitrary: k rule: digits_of.induct)
  case (1 n)
  show ?case
  proof (cases "n < 10")
    case True
    then show ?thesis using "1.prems" by (simp add: digits_of_small)
  next
    case False
    obtain k' where k: "k = Suc k'" using "1.prems" by (cases k) auto
    have "0 < k'" using False "1.prems" k by (cases k') auto
    moreover have "n div 10 < 10 ^ k'" using "1.prems" k by (simp add: less_mult_imp_div_less mult.commute)
    ultimately have "length (digits_of (n div 10)) \<le> k'" using "1.IH" False by blast
    then show ?thesis using False k by (subst digits_of.simps) simp
  qed
qed

lemma bit_length_le: "n < 2 ^ k \<Longrightarrow> bit_length n \<le> k"
proof (induction n arbitrary: k rule: bit_length.induct)
  case (1 n)
  show ?case
  proof (cases "n = 0")
    case True
    then show ?thesis by (subst bit_length.simps) simp
  next
    case False
    obtain k' where k: "k = Suc k'" using "1.prems" False by (cases k) auto
    have "n div 2 < 2 ^ k'" using "1.prems" k by simp
    then have "bit_length (n div 2) \<le> k'" using "1.IH" False by blast
    then show ?thesis using False k by (subst bit_length.simps) simp
  qed
qed

lemma bit_length_lower: "0 < n \<Longrightarrow> 2 ^ (bit_length n - 1) \<le> n"
proof (induction n rule: bit_length.induct)
  case (1 n)
  show ?case
  proof (cases "n div 2 = 0")
    case True
    then have "bit_length (n div 2) = 0" by (subst bit_length.simps) simp
    then show ?thesis using "1.prems" by (subst bit_length.simps) simp
  next
    case False
    then have ih: "2 ^ (bit_length (n div 2) - 1) \<le> n div 2" using "1.IH" "1.prems" by simp
    have pos: "0 < bit_length (n div 2)" using False by (subst bit_length.simps) simp
    have "bit_length n = Suc (bit_length (n div 2))" using "1.prems" by (subst bit_length.simps) simp
    then have "2 ^ (bit_length n - 1) = 2 * 2 ^ (bit_length (n div 2) - 1)"
      using pos by (cases "bit_length (n div 2)") auto
    also have "\<dots> \<le> 2 * (n div 2)" using ih by simp
    also have "\<dots> \<le> n" by simp
    finally show ?thesis .
  qed
qed

lemma to_double_exact: "n < 2 ^ 53 \<Longrightarrow> to_double n = Num (real n)"
proof -
  assume a: "n < 2 ^ 53"
  then have "bit_length n \<le> 53" by (rule bit_length_le)
  then have e: "bit_length n - 53 = 0" by simp
  have "\<not> 1024 < bit_length n" using \<open>bit_length n \<le> 53\<close> by simp
  then show ?thesis by (simp add: to_double_def e)
qed

lemma bit_length_upper: "n < 2 ^ bit_length n"
proof (induction n rule: bit_length.induct)
  case (1 n)
  show ?case
  proof (cases "n = 0")
    case True
    then show ?thesis by simp
  next
    case False
    then have ih: "n div 2 < 2 ^ bit_length (n div 2)" using "1.IH" by simp
    have "bit_length n = Suc (bit_length (n div 2))" using False by (subst bit_length.simps) simp
    moreover have "n < 2 * 2 ^ bit_length (n div 2)" using ih by linarith
    ultimately show ?thesis by simp
  qed
qed

lemma to_double_large:
  assumes "2 ^ 53 \<le> n" "to_double n = Num r"
  shows "2 ^ 53 \<le> r"
proof -
  define e where "e = bit_length n - 53"
  define q where "q = n div 2 ^ e"
  define q' where "q' = (if 2 ^ e < 2 * (n mod 2 ^ e) \<or> (2 * (n mod 2 ^ e) = 2 ^ e \<and> odd q) then q + 1 else q)"
  have "to_double n = (if 1024 < bit_length (q' * 2 ^ e) then PosInf else Num (real (q' * 2 ^ e)))"
    unfolding to_double_def Let_def e_def q_def q'_def ..
  then have r: "r = real (q' * 2 ^ e)"
    using assms(2) by (simp split: if_splits)
  have "n < 2 ^ bit_length n" by (rule bit_length_upper)
  have bl: "53 < bit_length n"
  proof (rule ccontr)
    assume "\<not> 53 < bit_length n"
    then have "bit_length n \<le> 53" by simp
    then have "(2::nat) ^ bit_length n \<le> 2 ^ 53" by (intro power_increasing) auto
    then show False using \<open>n < 2 ^ bit_length n\<close> assms(1) by linarith
  qed
  have "2 ^ (bit_length n - 1) \<le> n" using assms(1) by (intro bit_length_lower) simp
  moreover have "bit_length n - 1 = 52 + e" using bl by (simp add: e_def)
  ultimately have "2 ^ 52 * 2 ^ e \<le> n" by (simp add: power_add)
  then have "2 ^ 52 \<le> q" unfolding q_def by (simp add: less_eq_div_iff_mult_less_eq)
  moreover have "q \<le> q'" by (simp add: q'_def)
  ultimately have "2 ^ 52 \<le> q'" by linarith
  then have "2 ^ 52 * 2 ^ e \<le> q' * 2 ^ e" by (rule mult_le_mono1)
  moreover have "(2::nat) ^ 53 \<le> 2 ^ 52 * 2 ^ e"
  proof -
    have "0 < e" using bl by (simp add: e_def)
    then have "(2::nat) ^ 1 \<le> 2 ^ e" by (intro power_increasing) auto
    then show ?thesis by simp
  qed
  ultimately have "2 ^ 53 \<le> q' * 2 ^ e" by linarith
  then have "real (2 ^ 53) \<le> real (q' * 2 ^ e)" by (rule iffD2 [OF of_nat_le_iff])
  then show ?thesis using r by simp
qed

lemma to_double_eq_small:
  assumes "x < 2 ^ 53" "to_double v = Num (real x)"
  shows "v = x"
proof (cases "v < 2 ^ 53")
  case True
  then show ?thesis using assms(2) by (simp add: to_double_exact)
next
  case False
  then have "2 ^ 53 \<le> real x" using assms(2) by (intro to_double_large [of v]) auto
  moreover have "real x < 2 ^ 53" using assms(1) by (metis of_nat_less_iff of_nat_numeral of_nat_power)
  ultimately show ?thesis by simp
qed

lemma shortest_exact:
  assumes "x < 2 ^ 53" "0 < x"
  shows "\<exists>s i. shortest j d x = (s, d) \<and> 0 < s \<and> x = s * 10 ^ i"
proof (induction j)
  case 0
  have "shortest 0 d x = (x, d)" by (subst shortest.simps) simp
  then show ?case using assms(2) by (intro exI [of _ x] exI [of _ 0]) simp
next
  case (Suc j)
  define p :: nat where "p = 10 ^ Suc j"
  define lo where "lo = x div p"
  have hi: "to_double ((lo + 1) * p) \<noteq> Num (real x)"
  proof
    assume "to_double ((lo + 1) * p) = Num (real x)"
    then have "(lo + 1) * p = x" using assms(1) by (rule to_double_eq_small [rotated])
    moreover have "x < (lo + 1) * p"
      unfolding lo_def using dividend_less_div_times [of p x] by (simp add: p_def mult.commute)
    ultimately show False by simp
  qed
  have hi': "to_double (p + lo * p) \<noteq> Num (real x)" using hi by simp
  note sh = shortest.simps [of "Suc j" d x, unfolded Let_def, folded p_def, folded lo_def]
  have unfold: "shortest (Suc j) d x =
      (if 0 < lo \<and> to_double (lo * p) = Num (real x) then (lo, d) else shortest j d x)"
    by (subst sh) (use hi' in auto)
  show ?case
  proof (cases "0 < lo \<and> to_double (lo * p) = Num (real x)")
    case True
    then have "lo * p = x" using assms(1) to_double_eq_small by blast
    then have "x = lo * 10 ^ Suc j" by (simp add: p_def)
    then show ?thesis using True unfold by (intro exI [of _ lo] exI [of _ "Suc j"]) simp
  next
    case False
    then have "shortest (Suc j) d x = shortest j d x" by (subst unfold) (rule if_not_P)
    then show ?thesis using Suc.IH by simp
  qed
qed

lemma integer_to_string_exact:
  assumes "x < 2 ^ 53"
  shows "integer_to_string x = digits_of x"
proof (cases "x = 0")
  case True
  then show ?thesis by (simp add: integer_to_string_def digits_of_small digit_char_simps)
next
  case False
  define d where "d = length (digits_of x)"
  obtain s i where s: "shortest (d - Suc 0) d x = (s, d)" "0 < s" "x = s * 10 ^ i"
    using shortest_exact [OF assms, of "d - Suc 0" d] False by auto
  have dx: "digits_of x = digits_of s @ replicate i CHR ''0''"
    using s(2,3) by (simp add: digits_of_times_power)
  then have di: "d - length (digits_of s) = i" by (simp add: d_def)
  have "x < 10 ^ 21" using assms by simp
  then have "d \<le> 21" unfolding d_def by (intro length_digits_of_le) auto
  then have "integer_to_string x = digits_of s @ replicate (d - length (digits_of s)) CHR ''0''"
    using False by (simp add: integer_to_string_def d_def [symmetric] s(1) Let_def)
  then show ?thesis using dx di by simp
qed

lemma number_to_string_nat:
  "n < 2 ^ 53 \<Longrightarrow> number_to_string (Num (real n)) = digits_of n"
  by (simp add: number_to_string_def positive_to_string_def integer_to_string_exact)

lemma number_to_string_neg_nat:
  assumes "n < 2 ^ 53"
  shows "number_to_string (Num (- real n)) = (if n = 0 then [] else ''-'') @ digits_of n"
proof (cases "n = 0")
  case True
  then show ?thesis using number_to_string_nat [of 0] by simp
next
  case False
  then have "- real n < 0" by simp
  moreover have "positive_to_string (real n) = digits_of n"
    using assms by (simp add: positive_to_string_def integer_to_string_exact)
  ultimately show ?thesis using False by (simp add: number_to_string_def)
qed

text \<open>Two decimals of a number of quarters.\<close>

lemma two_decimals:
  "digits_of (25 * n) = (if n < 4 then digits_of (25 * n)
     else digits_of (n div 4) @ [digit_char (25 * (n mod 4) div 10), digit_char (25 * (n mod 4) mod 10)])"
proof (cases "n < 4")
  case True
  then show ?thesis by simp
next
  case False
  have "25 * n = 100 * (n div 4) + 25 * (n mod 4)" by presburger
  moreover have "0 < n div 4" using False by simp
  moreover have "25 * (n mod 4) < 100" by simp
  ultimately show ?thesis using False digits_of_hundreds [of "n div 4" "25 * (n mod 4)"] by simp
qed

lemma digits_of_nonempty: "digits_of n \<noteq> []"
  by (subst digits_of.simps) simp

lemma floor_half: "\<lfloor>real k + 1 / 2\<rfloor> = int k"
  by (rule floor_unique) simp_all

lemma quarters_digits:
  "two_places (25 * n) = digits_of (n div 4) @ ''.'' @ [''00'', ''25'', ''50'', ''75''] ! (n mod 4)"
proof (cases "n < 4")
  case True
  then consider "n = 0" | "n = 1" | "n = 2" | "n = 3" by linarith
  then show ?thesis
    by cases (simp_all add: two_places_def digits_of.simps digit_char_simps)
next
  case False
  define q where "q = n div 4"
  have m: "digits_of (25 * n) =
      digits_of q @ [digit_char (25 * (n mod 4) div 10), digit_char (25 * (n mod 4) mod 10)]"
    using two_decimals [of n] False by (simp add: q_def)
  have "n mod 4 < 4" by simp
  then consider "n mod 4 = 0" | "n mod 4 = 1" | "n mod 4 = 2" | "n mod 4 = 3" by linarith
  then show ?thesis
    by cases (simp_all add: two_places_def m q_def [symmetric] digit_char_simps Let_def digits_of_nonempty)
qed

lemma toFixed2_quarters:
  assumes "n < 2 ^ 53"
  shows "toFixed2 (Num (real n / 4)) = spec_quarters False n"
    and "toFixed2 (Num (- (real n / 4))) = spec_quarters True n"
proof -
  have "real n < 2 ^ 53" using assms by (metis of_nat_less_iff of_nat_numeral of_nat_power)
  then have small: "\<not> 10 ^ 21 \<le> real n / 4" by simp
  have "\<lfloor>real n / 4 * 100 + 1 / 2\<rfloor> = int (25 * n)"
    by (rule floor_unique) simp_all
  then have n: "nat \<lfloor>real n / 4 * 100 + 1 / 2\<rfloor> = 25 * n" by (simp only: nat_int)
  have pos: "toFixed2 (Num (real n / 4)) = two_places (25 * n)"
    using small n by (simp add: toFixed2_def Let_def)
  then show "toFixed2 (Num (real n / 4)) = spec_quarters False n"
    by (simp add: quarters_digits spec_quarters_def)
  show "toFixed2 (Num (- (real n / 4))) = spec_quarters True n"
  proof (cases "n = 0")
    case True
    then show ?thesis using pos quarters_digits [of 0] by (simp add: spec_quarters_def)
  next
    case False
    have "toFixed2 (Num (- (real n / 4))) = ''-'' @ two_places (25 * n)"
      using small n False by (simp add: toFixed2_def Let_def)
    then show ?thesis using False by (simp add: quarters_digits spec_quarters_def)
  qed
qed

lemma startsWith_append: "startsWith lit (lit @ s)"
  by (induction lit) auto

lemma digits_then:
  assumes "list_all is_digit ds" "sfx = [] \<or> \<not> is_digit (hd sfx)"
  shows "takeWhile is_digit (ds @ sfx) = ds" and "dropWhile is_digit (ds @ sfx) = sfx"
proof -
  have all: "\<And>x. x \<in> set ds \<Longrightarrow> is_digit x" using assms(1) by (simp add: list_all_iff)
  have t: "takeWhile is_digit sfx = []" using assms(2) by (cases sfx) auto
  have d: "dropWhile is_digit sfx = sfx" using assms(2) by (cases sfx) auto
  show "takeWhile is_digit (ds @ sfx) = ds" using all t by simp
  show "dropWhile is_digit (ds @ sfx) = sfx" using all d by simp
qed

lemma literal_digits_shape:
  assumes "ds \<noteq> []" "list_all is_digit ds" "sfx = [] \<or> \<not> is_digit (hd sfx)"
  shows "literal_digits lit (lit @ ds @ sfx) = Some (ds, sfx)"
  using assms digits_then [OF assms(2,3)] by (simp add: literal_digits_def startsWith_append)

lemma leftmost_start: "m s = Some r \<Longrightarrow> leftmost m s = Some r"
  by (cases s) auto

lemma not_digit_n: "\<not> is_digit CHR ''n''"
  by (simp add: is_digit_def)

lemma suffix_ok: "sfx = [] \<or> sfx = ''n'' \<Longrightarrow> sfx = [] \<or> \<not> is_digit (hd sfx)"
  using not_digit_n by auto

lemma optional_n_suffix: "sfx = [] \<or> sfx = ''n'' \<Longrightarrow> optional_n sfx = (sfx = ''n'')"
  by (auto simp: optional_n_def)

lemma space_regex_shape:
  assumes "prefix \<in> set (map fst cssPropertyMap)" "ds \<noteq> []" "list_all is_digit ds"
    "sfx = [] \<or> sfx = ''n''"
  shows "space_regex (prefix @ ''-'' @ ds @ sfx) = Some (prefix, ds, sfx = ''n'')"
proof -
  have ld: "literal_digits ''-'' (CHR ''-'' # ds @ sfx) = Some (ds, sfx)"
    using literal_digits_shape [OF assms(2,3) suffix_ok [OF assms(4)], of "''-''"] by simp
  have opt: "optional_n sfx = (sfx = ''n'')" using assms(4) by (rule optional_n_suffix)
  have "prefix \<in> {''m'', ''mt'', ''mb'', ''ml'', ''mr'', ''mx'', ''my'',
                    ''p'', ''pt'', ''pb'', ''pl'', ''pr'', ''px'', ''py''}"
    using assms(1) by (simp add: cssPropertyMap_def)
  then show ?thesis
    by (elim insertE emptyE) (simp_all add: space_regex_def ld opt)
qed

lemma z_regex_shape:
  assumes "ds \<noteq> []" "list_all is_digit ds" "sfx = [] \<or> sfx = ''n''"
  shows "z_regex (''z-'' @ ds @ sfx) = Some (ds, sfx = ''n'')"
  using literal_digits_shape [OF assms(1,2) suffix_ok [OF assms(3)], of "''z-''"]
    optional_n_suffix [OF assms(3)]
  by (simp add: z_regex_def)

lemma digits_regex_shape:
  assumes "ds \<noteq> []" "list_all is_digit ds"
  shows "digits_regex lit (lit @ ds) = Some ds"
  using literal_digits_shape [OF assms, of "[]" lit] by (simp add: digits_regex_def)

lemma parseInt_exact: "dec_val ds < 2 ^ 53 \<Longrightarrow> parseInt ds = Num (real (dec_val ds))"
  by (simp add: parseInt_def to_double_exact)

lemma calculateSpaceValue_match:
  "leftmost space_regex input = Some (styleType, number, negativeFlag) \<Longrightarrow>
   calculateSpaceValue input =
     Some (styleType,
       toFixed2 (multiply (multiply (parseInt number) (1 / 4)) (if negativeFlag then - 1 else 1)))"
  by (simp add: calculateSpaceValue_def)

lemma quarter_value:
  assumes "dec_val ds < 2 ^ 53"
  shows "toFixed2 (multiply (multiply (parseInt ds) (1 / 4)) (if negative then - 1 else 1)) =
    spec_quarters negative (dec_val ds)"
proof -
  have pi: "parseInt ds = Num (real (dec_val ds))" using assms by (rule parseInt_exact)
  have m1: "multiply (multiply (Num (real (dec_val ds))) (1 / 4)) 1 = Num (real (dec_val ds) / 4)"
    by (simp add: multiply_def)
  have m2: "multiply (multiply (Num (real (dec_val ds))) (1 / 4)) (- 1) =
      Num (- (real (dec_val ds) / 4))"
    by (simp add: multiply_def)
  show ?thesis
  proof (cases negative)
    case True
    then show ?thesis unfolding pi using m2 toFixed2_quarters(2) [OF assms] by simp
  next
    case False
    then show ?thesis unfolding pi using m1 toFixed2_quarters(1) [OF assms] by simp
  qed
qed

lemma calculateSpaceValue_shape:
  assumes "prefix \<in> set (map fst cssPropertyMap)" "ds \<noteq> []" "list_all is_digit ds"
    "sfx = [] \<or> sfx = ''n''" "dec_val ds < 2 ^ 53"
  shows "calculateSpaceValue (prefix @ ''-'' @ ds @ sfx) =
    Some (prefix, spec_quarters (sfx = ''n'') (dec_val ds))"
proof -
  have lm: "leftmost space_regex (prefix @ ''-'' @ ds @ sfx) = Some (prefix, ds, sfx = ''n'')"
    using assms(1-4) by (intro leftmost_start space_regex_shape)
  show ?thesis
    unfolding calculateSpaceValue_match [OF lm] quarter_value [OF assms(5)] ..
qed

lemma space_rule_check:
  "list_all (\<lambda>(prefix, properties).
      map_of cssPropertyMap prefix \<noteq> None \<and>
      space_rule className (the (map_of cssPropertyMap prefix)) v =
        spec_space_rule className properties v) spec_spacing_properties"
  by (simp add: spec_spacing_properties_def cssPropertyMap_def space_rule_def spec_space_rule_def)

lemma space_rule_table:
  assumes "map_of spec_spacing_properties prefix = Some properties"
  shows "\<exists>cssProperty. map_of cssPropertyMap prefix = Some cssProperty \<and>
     (\<forall>v. space_rule className cssProperty v = spec_space_rule className properties v)"
proof -
  have m: "(prefix, properties) \<in> set spec_spacing_properties" using assms by (rule map_of_SomeD)
  have "map_of cssPropertyMap prefix \<noteq> None \<and>
      space_rule className (the (map_of cssPropertyMap prefix)) v =
        spec_space_rule className properties v" for v
    using space_rule_check [of className v] m unfolding list_all_iff by fast
  then show ?thesis by fastforce
qed

lemma spacing_step:
  assumes "map_of spec_spacing_properties prefix = Some properties"
    and "ds \<noteq> []" and "list_all is_digit ds" and "dec_val ds < 2 ^ 53"
    and "sfx = [] \<or> sfx = ''n''"
    and "className = prefix @ ''-'' @ ds @ sfx"
    and "className \<notin> processed"
  shows "space_class (processed, spaceStyles) className =
    (insert className processed,
     spaceStyles @ [spec_space_rule className properties (spec_quarters (sfx = ''n'') (dec_val ds))])"
proof -
  obtain cssProperty where p: "map_of cssPropertyMap prefix = Some cssProperty"
    and r: "\<And>v. space_rule className cssProperty v = spec_space_rule className properties v"
    using space_rule_table [OF assms(1), of className] by blast
  have "prefix \<in> set (map fst cssPropertyMap)" using p by (metis map_of_eq_None_iff option.distinct(1) set_map)
  then have "calculateSpaceValue className = Some (prefix, spec_quarters (sfx = ''n'') (dec_val ds))"
    unfolding assms(6) using assms(2,3,5,4) by (rule calculateSpaceValue_shape)
  then show ?thesis using assms(7) p r by (simp add: space_class_def)
qed

lemma integer_value:
  assumes "dec_val ds < 2 ^ 53"
  shows "number_to_string (multiply (parseInt ds) (if negative then - 1 else 1)) =
    spec_integer negative (dec_val ds)"
proof -
  have pi: "parseInt ds = Num (real (dec_val ds))" using assms by (rule parseInt_exact)
  show ?thesis
  proof (cases negative)
    case True
    have "multiply (Num (real (dec_val ds))) (- 1) = Num (- real (dec_val ds))"
      by (simp add: multiply_def)
    then show ?thesis
      unfolding pi using True number_to_string_neg_nat [OF assms] by (simp add: spec_integer_def)
  next
    case False
    have "multiply (Num (real (dec_val ds))) 1 = Num (real (dec_val ds))"
      by (simp add: multiply_def)
    then show ?thesis
      unfolding pi using False number_to_string_nat [OF assms] by (simp add: spec_integer_def)
  qed
qed

lemma plain_value:
  "dec_val ds < 2 ^ 53 \<Longrightarrow> number_to_string (parseInt ds) = digits_of (dec_val ds)"
  by (simp add: parseInt_exact number_to_string_nat)

lemma calculateZIndex_shape:
  assumes "ds \<noteq> []" "list_all is_digit ds" "sfx = [] \<or> sfx = ''n''"
  shows "calculateZIndex (''z-'' @ ds @ sfx) =
    Some (multiply (parseInt ds) (if sfx = ''n'' then - 1 else 1))"
proof -
  have "leftmost z_regex (''z-'' @ ds @ sfx) = Some (ds, sfx = ''n'')"
    using assms by (intro leftmost_start z_regex_shape)
  then show ?thesis by (simp add: calculateZIndex_def)
qed

lemma zindex_step:
  assumes "ds \<noteq> []" "list_all is_digit ds" "dec_val ds < 2 ^ 53" "sfx = [] \<or> sfx = ''n''"
    "className = ''z-'' @ ds @ sfx" "className \<notin> processed"
  shows "zindex_class (processed, styles) className =
    (insert className processed,
     styles @ [''.'' @ className @ '' { z-index: '' @ spec_integer (sfx = ''n'') (dec_val ds) @ ''; }''])"
proof -
  have c: "calculateZIndex className = Some (multiply (parseInt ds) (if sfx = ''n'' then - 1 else 1))"
    unfolding assms(5) using assms(1,2,4) by (rule calculateZIndex_shape)
  show ?thesis
    using assms(6) by (simp add: zindex_class_def c integer_value [OF assms(3)])
qed

lemma calculate_digits_shape:
  assumes "ds \<noteq> []" "list_all is_digit ds"
  shows "calculateBorderRadius (''rounded-'' @ ds) = Some (parseInt ds)"
    and "calculateFontSize (''fs-'' @ ds) = Some (parseInt ds)"
proof -
  have "leftmost (digits_regex ''rounded-'') (''rounded-'' @ ds) = Some ds"
    using assms by (intro leftmost_start digits_regex_shape)
  then show "calculateBorderRadius (''rounded-'' @ ds) = Some (parseInt ds)"
    by (simp add: calculateBorderRadius_def)
  have "leftmost (digits_regex ''fs-'') (''fs-'' @ ds) = Some ds"
    using assms by (intro leftmost_start digits_regex_shape)
  then show "calculateFontSize (''fs-'' @ ds) = Some (parseInt ds)"
    by (simp add: calculateFontSize_def)
qed

lemma radius_step:
  assumes "ds \<noteq> []" "list_all is_digit ds" "dec_val ds < 2 ^ 53"
    "className = ''rounded-'' @ ds" "className \<notin> processed"
  shows "radius_class (processed, styles) className =
    (insert className processed,
     styles @ [''.'' @ className @ '' { border-radius: '' @ digits_of (dec_val ds) @ ''px; }''])"
  using assms(5) calculate_digits_shape(1) [OF assms(1,2)]
  by (simp add: radius_class_def assms(4) plain_value [OF assms(3)])

lemma fontsize_step:
  assumes "ds \<noteq> []" "list_all is_digit ds" "dec_val ds < 2 ^ 53"
    "className = ''fs-'' @ ds" "className \<notin> processed"
  shows "fontsize_class (processed, styles) className =
    (insert className processed,
     styles @ [''.'' @ className @ '' { font-size: '' @ digits_of (dec_val ds) @ ''px; }''])"
  using assms(5) calculate_digits_shape(2) [OF assms(1,2)]
  by (simp add: fontsize_class_def assms(4) plain_value [OF assms(3)])

subsection \<open>Opacity\<close>

lemma tenths_check:
  "list_all (\<lambda>k. number_to_string (Num (real k / 10)) = spec_tenths k)
     [1, 2, 3, 4, 5, 6, 7, 8, 9, 10]"
  by (simp add: number_to_string_def positive_to_string_def
      fraction_digits.simps integer_to_string_exact digits_of_small spec_tenths_def
      digit_char_def)

lemma tenths_to_string:
  assumes "1 \<le> k" "k \<le> 10"
  shows "number_to_string (Num (real k / 10)) = spec_tenths k"
proof -
  have "k = 1 \<or> k = 2 \<or> k = 3 \<or> k = 4 \<or> k = 5 \<or> k = 6 \<or> k = 7 \<or> k = 8 \<or> k = 9 \<or> k = 10"
    using assms by presburger
  then have "k \<in> set [1, 2, 3, 4, 5, 6, 7, 8, 9, 10]" by simp
  then show ?thesis using tenths_check unfolding list_all_iff by fast
qed

lemma opacity_level_out_of_range:
  assumes "\<not> (1 \<le> n \<and> n \<le> 10)"
  shows "\<not> (ge (to_double n) 1 \<and> le (to_double n) 10)"
proof (cases "n < 2 ^ 53")
  case True
  then show ?thesis using assms by (auto simp: to_double_exact ge_def le_def)
next
  case False
  show ?thesis
  proof (cases "to_double n")
    case (Num r)
    then have "2 ^ 53 \<le> r" using False by (intro to_double_large [of n]) auto
    then show ?thesis using Num by (simp add: le_def)
  qed (simp_all add: le_def ge_def)
qed

lemma calculateOpacity_shape:
  assumes "ds \<noteq> []" "list_all is_digit ds"
  shows "calculateOpacity (''opacity-'' @ ds) =
    (if 1 \<le> dec_val ds \<and> dec_val ds \<le> 10 then Some (Num (real (dec_val ds) / 10)) else None)"
proof -
  have lm: "leftmost (digits_regex ''opacity-'') (''opacity-'' @ ds) = Some ds"
    using assms by (intro leftmost_start digits_regex_shape)
  show ?thesis
  proof (cases "1 \<le> dec_val ds \<and> dec_val ds \<le> 10")
    case True
    then have "dec_val ds < 2 ^ 53" by simp
    then have "parseInt ds = Num (real (dec_val ds))" by (rule parseInt_exact)
    then show ?thesis
      using True lm by (simp add: calculateOpacity_def ge_def le_def divide_def)
  next
    case False
    then have "\<not> (ge (parseInt ds) 1 \<and> le (parseInt ds) 10)"
      unfolding parseInt_def by (rule opacity_level_out_of_range)
    then show ?thesis using False lm by (auto simp: calculateOpacity_def Let_def)
  qed
qed

lemma opacity_step:
  assumes "ds \<noteq> []" "list_all is_digit ds" "className = ''opacity-'' @ ds"
    "className \<notin> processedClasses this"
  shows "addOpacityStyle (this, b) className =
    (if 1 \<le> dec_val ds \<and> dec_val ds \<le> 10 then
       (this\<lparr>processedClasses := insert className (processedClasses this)\<rparr>,
        insertRule (styleSheet this)
          (''.'' @ className @ '' { opacity: '' @ spec_tenths (dec_val ds) @ ''; }'') b)
     else (this, b))"
proof -
  have s: "startsWith ''opacity-'' className" unfolding assms(3) by (rule startsWith_append)
  have c: "calculateOpacity className =
      (if 1 \<le> dec_val ds \<and> dec_val ds \<le> 10 then Some (Num (real (dec_val ds) / 10)) else None)"
    unfolding assms(3) using assms(1,2) by (rule calculateOpacity_shape)
  show ?thesis
    using assms(4) s by (simp add: addOpacityStyle_def c tenths_to_string)
qed

section \<open>Breakpoints\<close>

text \<open>
  C3. The breakpoint of a viewport width is the row of the threshold table whose
  exclusive upper bound is the first one above the width: below 576 it is xs with
  container 100%, from 576 and below 768 sm with 540px, from 768 and below 992 md with
  720px, from 992 and below 1200 lg with 960px, from 1200 and below 1400 xl with
  1140px, and from 1400 on xxl with 1320px; so 575 is xs, 576 and 767 are sm, 768 is md.
\<close>

theorem breakpoint_table:
  "(w < 576 \<longrightarrow> getDeviceTypeAndContainer w = (''xs'', ''100%'')) \<and>
   (576 \<le> w \<and> w < 768 \<longrightarrow> getDeviceTypeAndContainer w = (''sm'', ''540px'')) \<and>
   (768 \<le> w \<and> w < 992 \<longrightarrow> getDeviceTypeAndContainer w = (''md'', ''720px'')) \<and>
   (992 \<le> w \<and> w < 1200 \<longrightarrow> getDeviceTypeAndContainer w = (''lg'', ''960px'')) \<and>
   (1200 \<le> w \<and> w < 1400 \<longrightarrow> getDeviceTypeAndContainer w = (''xl'', ''1140px'')) \<and>
   (1400 \<le> w \<longrightarrow> getDeviceTypeAndContainer w = (''xxl'', ''1320px'')) \<and>
   getDeviceTypeAndContainer 575 = (''xs'', ''100%'') \<and>
   getDeviceTypeAndContainer 576 = (''sm'', ''540px'') \<and>
   getDeviceTypeAndContainer 767 = (''sm'', ''540px'') \<and>
   getDeviceTypeAndContainer 768 = (''md'', ''720px'')"
  by (simp add: getDeviceTypeAndContainer_def)

theorem breakpoint_table_witness:
  "(991::int) < 992 \<and> getDeviceTypeAndContainer 991 = (''md'', ''720px'') \<and>
   (1199::int) < 1200 \<and> getDeviceTypeAndContainer 1199 = (''lg'', ''960px'') \<and>
   getDeviceTypeAndContainer 1200 = (''xl'', ''1140px'') \<and>
   getDeviceTypeAndContainer 1399 = (''xl'', ''1140px'') \<and>
   getDeviceTypeAndContainer 1400 = (''xxl'', ''1320px'') \<and>
   getDeviceTypeAndContainer 0 = (''xs'', ''100%'')"
  using breakpoint_table [of 991] breakpoint_table [of 1199] breakpoint_table [of 1200]
    breakpoint_table [of 1399] breakpoint_table [of 1400] breakpoint_table [of 0]
  by simp

end
